theory Spec2Isabelle
  imports Complex_Main
begin

section \<open>Floating-point values and numpy arrays\<close>

text \<open>
  The script \<^verbatim>\<open>generation_cartes.py\<close> works on numpy float arrays. What it does with a
  float is compare it and test it for NaN. A float is modelled as NaN, an infinity, or a
  real number: comparisons are those of IEEE 754 (every comparison with NaN is false).
  Rounding and the sign of zero are not modelled: \<open>Fin x\<close> carries the exact value.
\<close>

datatype fl = NaN | NInf | Fin real | PInf

text \<open>\<^verbatim>\<open>np.isnan(x)\<close>\<close>

fun isnan :: "fl \<Rightarrow> bool" where
  "isnan NaN = True"
| "isnan NInf = False"
| "isnan (Fin x) = False"
| "isnan PInf = False"

text \<open>\<^verbatim>\<open>a < b\<close>\<close>

fun flt :: "fl \<Rightarrow> fl \<Rightarrow> bool" where
  "flt NaN b = False"
| "flt NInf NaN = False"
| "flt NInf NInf = False"
| "flt NInf (Fin y) = True"
| "flt NInf PInf = True"
| "flt (Fin x) NaN = False"
| "flt (Fin x) NInf = False"
| "flt (Fin x) (Fin y) = (x < y)"
| "flt (Fin x) PInf = True"
| "flt PInf b = False"

text \<open>\<^verbatim>\<open>a == b\<close>\<close>

definition feq :: "fl \<Rightarrow> fl \<Rightarrow> bool" where
  "feq a b = (\<not> isnan a \<and> \<not> isnan b \<and> a = b)"

text \<open>\<^verbatim>\<open>a <= b\<close>, \<^verbatim>\<open>a > b\<close>, \<^verbatim>\<open>a >= b\<close>\<close>

definition fle :: "fl \<Rightarrow> fl \<Rightarrow> bool" where
  "fle a b = (flt a b \<or> feq a b)"

definition fgt :: "fl \<Rightarrow> fl \<Rightarrow> bool" where
  "fgt a b = flt b a"

definition fge :: "fl \<Rightarrow> fl \<Rightarrow> bool" where
  "fge a b = fle b a"

text \<open>
  A two-dimensional numpy array: its shape and its cells. Only cells inside the shape
  are ever read.
\<close>

record 'a array2 =
  shape0 :: nat
  shape1 :: nat
  cell :: "nat \<Rightarrow> nat \<Rightarrow> 'a"

datatype error = IndexError | ValueError | TypeError

section \<open>Simulation: the boundary kernel\<close>

record particle =
  lon :: fl
  lat :: fl
  depth :: fl

text \<open>
  \<^verbatim>\<open>def GibraltarWall(particle, fieldset, time):
      if particle.lon < -5.8:
          particle.lon = -5.8\<close>
  The kernel mutates the particle; the model returns it.
\<close>

definition GibraltarWall :: "particle \<Rightarrow> 'f \<Rightarrow> 't \<Rightarrow> particle" where
  "GibraltarWall particle fieldset time =
     (if flt (lon particle) (Fin (- 5.8)) then particle\<lparr>lon := Fin (- 5.8)\<rparr>
      else particle)"

section \<open>Simulation: the coastal mask\<close>

text \<open>
  \<^verbatim>\<open>mask_land = np.isnan(uo_sample) | (uo_sample > 1e10) | (uo_sample == 0)\<close>
\<close>

definition mask_land :: "fl array2 \<Rightarrow> bool array2" where
  "mask_land uo_sample =
     \<lparr>shape0 = shape0 uo_sample, shape1 = shape1 uo_sample,
      cell = (\<lambda>y x. isnan (cell uo_sample y x)
                   \<or> fgt (cell uo_sample y x) (Fin 10000000000)
                   \<or> feq (cell uo_sample y x) (Fin 0))\<rparr>"

text \<open>
  \<^verbatim>\<open>struct = ndimage.generate_binary_structure(2, 2)\<close> is the full 3 by 3 neighbourhood.
  \<^verbatim>\<open>ndimage.binary_dilation(mask, structure=struct, iterations=n)\<close> with the default
  border value 0 sets a cell when the cell or one of its eight neighbours inside the
  array is set, and does so \<open>n\<close> times.
\<close>

definition around :: "nat \<Rightarrow> nat list" where
  "around i = (if i = 0 then [0, 1] else [i - 1, i, i + 1])"

definition dilate_once :: "bool array2 \<Rightarrow> bool array2" where
  "dilate_once m =
     m\<lparr>cell := (\<lambda>y x. list_ex (\<lambda>a. list_ex (\<lambda>b. a < shape0 m \<and> b < shape1 m \<and> cell m a b)
                                         (around x)) (around y))\<rparr>"

definition binary_dilation :: "bool array2 \<Rightarrow> nat \<Rightarrow> bool array2" where
  "binary_dilation m iterations = (dilate_once ^^ iterations) m"

text \<open>
  \<^verbatim>\<open>mask_land_dilated = ndimage.binary_dilation(mask_land, structure=struct, iterations=4)
  mask_coastal = mask_land_dilated & (~mask_land)\<close>
\<close>

definition mask_land_dilated :: "fl array2 \<Rightarrow> bool array2" where
  "mask_land_dilated uo_sample = binary_dilation (mask_land uo_sample) 4"

definition mask_coastal :: "fl array2 \<Rightarrow> bool array2" where
  "mask_coastal uo_sample =
     \<lparr>shape0 = shape0 uo_sample, shape1 = shape1 uo_sample,
      cell = (\<lambda>y x. cell (mask_land_dilated uo_sample) y x
                   \<and> \<not> cell (mask_land uo_sample) y x)\<rparr>"

section \<open>Simulation: the seed indices\<close>

text \<open>
  \<^verbatim>\<open>np.random.choice(n, sz, replace=False)\<close> takes the first \<open>sz\<close> entries of a
  random permutation of \<open>range(n)\<close>, and raises ValueError when \<open>sz\<close> exceeds \<open>n\<close>.
  The permutation drawn by the generator is the argument \<open>perm\<close>.
\<close>

definition random_choice :: "nat list \<Rightarrow> nat \<Rightarrow> nat \<Rightarrow> error + nat list" where
  "random_choice perm n sz =
     (if sz > n then Inl ValueError else Inr (take sz perm))"

text \<open>\<^verbatim>\<open>np.arange(n)\<close>\<close>

definition arange :: "nat \<Rightarrow> nat list" where
  "arange n = [0..<n]"

text \<open>
  \<^verbatim>\<open>indices = np.random.choice(len(valid_y), NB_PARTICLES, replace=False)
            if len(valid_y) > NB_PARTICLES else np.arange(len(valid_y))\<close>
  with \<open>len_valid_y\<close> the number of coastal candidates.
\<close>

definition indices :: "nat list \<Rightarrow> nat \<Rightarrow> nat \<Rightarrow> error + nat list" where
  "indices perm len_valid_y NB_PARTICLES =
     (if len_valid_y > NB_PARTICLES then random_choice perm len_valid_y NB_PARTICLES
      else Inr (arange len_valid_y))"

section \<open>Analysis: times and days\<close>

text \<open>
  \<^verbatim>\<open>xr.open_zarr\<close> decodes the times of the archive, so \<^verbatim>\<open>time_vals\<close> is an array of
  \<^verbatim>\<open>datetime64[ns]\<close>: a count of nanoseconds, or NaT where the time is undefined. The
  differences of such values are \<^verbatim>\<open>timedelta64[ns]\<close>, again a count or NaT. Both are
  modelled by \<open>td\<close>; the overflow of the 64-bit count is not modelled.
\<close>

datatype td = NaT | Ns int

text \<open>\<^verbatim>\<open>a - b\<close> on \<^verbatim>\<open>datetime64\<close>\<close>

fun td_sub :: "td \<Rightarrow> td \<Rightarrow> td" where
  "td_sub NaT b = NaT"
| "td_sub (Ns x) NaT = NaT"
| "td_sub (Ns x) (Ns y) = Ns (x - y)"

text \<open>The cast of a float to a 64-bit count drops the fraction (rounds towards zero).\<close>

definition trunc :: "real \<Rightarrow> int" where
  "trunc r = (if 0 \<le> r then \<lfloor>r\<rfloor> else \<lceil>r\<rceil>)"

text \<open>
  \<^verbatim>\<open>a / c\<close> for a \<^verbatim>\<open>timedelta64\<close> \<open>a\<close> and a float \<open>c\<close> is a \<^verbatim>\<open>timedelta64\<close> again: the
  quotient is cast back to a count, and is NaT when \<open>a\<close> is NaT or the quotient is not
  finite.
\<close>

fun td_div :: "td \<Rightarrow> real \<Rightarrow> td" where
  "td_div NaT c = NaT"
| "td_div (Ns x) c = (if c = 0 then NaT else Ns (trunc (of_int x / c)))"

text \<open>
  \<^verbatim>\<open>float(a)\<close> for a \<^verbatim>\<open>timedelta64\<close> \<open>a\<close>: the count as a float, and a TypeError on NaT.
\<close>

fun py_float :: "td \<Rightarrow> error + fl" where
  "py_float NaT = Inl TypeError"
| "py_float (Ns x) = Inr (Fin (of_int x))"

section \<open>Analysis: captures\<close>

text \<open>
  The trajectory archive: the arrays \<^verbatim>\<open>lon\<close>, \<^verbatim>\<open>lat\<close> and \<^verbatim>\<open>time\<close> of one dataset, all
  of shape \<open>(n_part, n_steps)\<close>.
\<close>

record dataset =
  n_part :: nat
  n_steps :: nat
  lon_traj :: "nat \<Rightarrow> nat \<Rightarrow> fl"
  lat_traj :: "nat \<Rightarrow> nat \<Rightarrow> fl"
  time_vals :: "nat \<Rightarrow> nat \<Rightarrow> td"

text \<open>\<^verbatim>\<open>AMP_BOX = {'lon_min': 4.2, 'lon_max': 5.2, 'lat_min': 42.5, 'lat_max': 43.2}\<close>\<close>

record box =
  lon_min :: fl
  lon_max :: fl
  lat_min :: fl
  lat_max :: fl

definition AMP_BOX :: box where
  "AMP_BOX = \<lparr>lon_min = Fin 4.2, lon_max = Fin 5.2, lat_min = Fin 42.5, lat_max = Fin 43.2\<rparr>"

text \<open>
  \<^verbatim>\<open>days_traj = ((time_vals - time_vals[0, 0]) / 1e9) / 86400.0\<close>
  Each division gives a whole count, so the days are whole numbers.
\<close>

definition days_traj :: "dataset \<Rightarrow> nat \<Rightarrow> nat \<Rightarrow> td" where
  "days_traj ds p t =
     td_div (td_div (td_sub (time_vals ds p t) (time_vals ds 0 0)) 1000000000) 86400"

text \<open>The state of the loop: \<^verbatim>\<open>captured_ids = set()\<close>, \<^verbatim>\<open>curve = []\<close>, \<^verbatim>\<open>t_axis = []\<close>.\<close>

record state =
  captured_ids :: "nat set"
  curve :: "nat list"
  t_axis :: "fl list"

definition init_state :: state where
  "init_state = \<lparr>captured_ids = {}, curve = [], t_axis = []\<rparr>"

text \<open>
  \<^verbatim>\<open>in_box = ((lon_traj[:, t] >= AMP_BOX['lon_min']) & (lon_traj[:, t] <= AMP_BOX['lon_max']) &
            (lat_traj[:, t] >= AMP_BOX['lat_min']) & (lat_traj[:, t] <= AMP_BOX['lat_max']))\<close>
  at particle \<open>p\<close>.
\<close>

definition in_box :: "box \<Rightarrow> dataset \<Rightarrow> nat \<Rightarrow> nat \<Rightarrow> bool" where
  "in_box b ds t p =
     (fge (lon_traj ds p t) (lon_min b) \<and> fle (lon_traj ds p t) (lon_max b) \<and>
      fge (lat_traj ds p t) (lat_min b) \<and> fle (lat_traj ds p t) (lat_max b))"

text \<open>\<^verbatim>\<open>np.where(m)[0]\<close> for a vector \<open>m\<close> of length \<open>n\<close>\<close>

definition np_where :: "nat \<Rightarrow> (nat \<Rightarrow> bool) \<Rightarrow> nat list" where
  "np_where n m = filter m [0..<n]"

text \<open>
  One turn of the loop at step \<open>t\<close>: \<open>Inl e\<close> is an exception, \<open>Inr None\<close> the
  \<^verbatim>\<open>break\<close>, \<open>Inr (Some st')\<close> the state for the next turn.
  \<^verbatim>\<open>day = float(days_traj[0, t])
  if np.isnan(day): break
  if day >= 30:
      in_box = ...
      captured_ids.update(np.where(in_box)[0])
  curve.append(len(captured_ids))
  t_axis.append(day)\<close>
\<close>

definition loop_body :: "box \<Rightarrow> dataset \<Rightarrow> nat \<Rightarrow> state \<Rightarrow> error + state option" where
  "loop_body b ds t st =
     (case py_float (days_traj ds 0 t) of
        Inl e \<Rightarrow> Inl e
      | Inr day \<Rightarrow>
          if isnan day then Inr None
          else
            let captured =
                  (if fge day (Fin 30)
                   then captured_ids st \<union> set (np_where (n_part ds) (in_box b ds t))
                   else captured_ids st)
            in Inr (Some \<lparr>captured_ids = captured,
                          curve = curve st @ [card captured],
                          t_axis = t_axis st @ [day]\<rparr>))"

text \<open>
  \<^verbatim>\<open>for t in range(n_steps): ...\<close> over the steps \<open>ts\<close> still to run. The result is the
  exception that ended the loop, if one did, and the state the variables are left in.
\<close>

fun capture_loop :: "box \<Rightarrow> dataset \<Rightarrow> nat list \<Rightarrow> state \<Rightarrow> error option \<times> state" where
  "capture_loop b ds [] st = (None, st)"
| "capture_loop b ds (t # ts) st =
     (case loop_body b ds t st of
        Inl e \<Rightarrow> (Some e, st)
      | Inr None \<Rightarrow> (None, st)
      | Inr (Some st') \<Rightarrow> capture_loop b ds ts st')"

text \<open>
  The state once the loop has been through its first \<open>k\<close> steps, or has ended before.
\<close>

definition state_after :: "box \<Rightarrow> dataset \<Rightarrow> nat \<Rightarrow> state" where
  "state_after b ds k = snd (capture_loop b ds [0..<k] init_state)"

text \<open>
  The analysis section as a whole. \<^verbatim>\<open>time_vals[0, 0]\<close> raises IndexError on an archive
  with no particle or no step; an exception in the loop ends the script.
\<close>

definition analyse :: "box \<Rightarrow> dataset \<Rightarrow> error + state" where
  "analyse b ds =
     (if n_part ds = 0 \<or> n_steps ds = 0 then Inl IndexError
      else case capture_loop b ds [0..<n_steps ds] init_state of
             (Some e, st) \<Rightarrow> Inl e
           | (None, st) \<Rightarrow> Inr st)"

text \<open>The cumulative curve plotted from \<^verbatim>\<open>x=t_axis, y=curve\<close>.\<close>

definition cumulative_curve :: "state \<Rightarrow> (fl \<times> nat) list" where
  "cumulative_curve st = zip (t_axis st) (curve st)"

section \<open>Recorded trajectories used as examples\<close>

text \<open>
  One particle, recorded at days 0, 30 and 60: at (5, 5), then twice at (0.5, 0.5).
  Thirty days are 2592000000000000 nanoseconds.
\<close>

definition ds_scenario :: dataset where
  "ds_scenario = \<lparr>n_part = 1, n_steps = 3,
     lon_traj = (\<lambda>p t. [Fin 5, Fin 0.5, Fin 0.5] ! t),
     lat_traj = (\<lambda>p t. [Fin 5, Fin 0.5, Fin 0.5] ! t),
     time_vals = (\<lambda>p t. [Ns 0, Ns 2592000000000000, Ns 5184000000000000] ! t)\<rparr>"

definition box_scenario :: box where
  "box_scenario = \<lparr>lon_min = Fin 0, lon_max = Fin 1, lat_min = Fin 0, lat_max = Fin 1\<rparr>"

text \<open>
  Two particles at days 0 and 30: at day 30 the first sits on the north-west corner of
  \<open>AMP_BOX\<close>, the second just west of it.
\<close>

definition ds_edge :: dataset where
  "ds_edge = \<lparr>n_part = 2, n_steps = 2,
     lon_traj = (\<lambda>p t. [[Fin 0, Fin 4.2], [Fin 0, Fin 4.1]] ! p ! t),
     lat_traj = (\<lambda>p t. [[Fin 0, Fin 43.2], [Fin 0, Fin 43]] ! p ! t),
     time_vals = (\<lambda>p t. [Ns 0, Ns 2592000000000000] ! t)\<rparr>"

text \<open>
  Two particles at days 0, 10, 30 and 60: the second is inside the unit box at day 0 and
  its position is undefined from day 10 on.
\<close>

definition ds_lost :: dataset where
  "ds_lost = \<lparr>n_part = 2, n_steps = 4,
     lon_traj = (\<lambda>p t. [[Fin 5, Fin 5, Fin 0.5, Fin 0.5], [Fin 0.5, NaN, NaN, NaN]] ! p ! t),
     lat_traj = (\<lambda>p t. [[Fin 5, Fin 5, Fin 0.5, Fin 0.5], [Fin 0.5, NaN, NaN, NaN]] ! p ! t),
     time_vals = (\<lambda>p t. [Ns 0, Ns 864000000000000, Ns 2592000000000000,
                           Ns 5184000000000000] ! t)\<rparr>"

text \<open>
  One particle at days 0, 30, 60 and 90, always at (0.5, 0.5), whose time is undefined
  at the third step and defined again at the fourth.
\<close>

definition ds_nat_day :: dataset where
  "ds_nat_day = \<lparr>n_part = 1, n_steps = 4,
     lon_traj = (\<lambda>p t. Fin 0.5),
     lat_traj = (\<lambda>p t. Fin 0.5),
     time_vals = (\<lambda>p t. [Ns 0, Ns 2592000000000000, NaT, Ns 7776000000000000] ! t)\<rparr>"

text \<open>
  Two particles at days 0, 30, 60 and 90: the time of the first particle is undefined at
  the third step, while the second particle, with all its times defined, is inside the
  unit box at the third and fourth steps.
\<close>

definition ds_nan_time :: dataset where
  "ds_nan_time = \<lparr>n_part = 2, n_steps = 4,
     lon_traj = (\<lambda>p t. [[Fin 5, Fin 5, Fin 5, Fin 5], [Fin 5, Fin 5, Fin 0.5, Fin 0.5]] ! p ! t),
     lat_traj = (\<lambda>p t. [[Fin 5, Fin 5, Fin 5, Fin 5], [Fin 5, Fin 5, Fin 0.5, Fin 0.5]] ! p ! t),
     time_vals = (\<lambda>p t. [[Ns 0, Ns 2592000000000000, NaT, Ns 7776000000000000],
                           [Ns 0, Ns 2592000000000000, Ns 5184000000000000,
                            Ns 7776000000000000]] ! p ! t)\<rparr>"

section \<open>Comparisons\<close>

lemma isnan_iff: "isnan a \<longleftrightarrow> a = NaN"
  by (cases a) simp_all

lemma flt_nan_right: "flt a NaN = False"
  by (cases a) simp_all

lemma fle_Fin: "fle (Fin x) (Fin y) \<longleftrightarrow> x \<le> y"
  by (auto simp: fle_def feq_def)

lemma fle_nan_left: "fle NaN b = False"
  by (simp add: fle_def feq_def)

lemma fle_nan_right: "fle a NaN = False"
  by (simp add: fle_def feq_def flt_nan_right)

lemma fge_day: "fge (Fin (of_int d)) (Fin 30) \<longleftrightarrow> 30 \<le> d"
proof -
  have "(30::real) \<le> of_int d \<longleftrightarrow> 30 \<le> d"
    using of_int_le_iff [of 30 d, where ?'a = real] by simp
  then show ?thesis by (simp add: fge_def fle_Fin)
qed

lemma in_box_nan:
  "isnan (lon_traj ds p t) \<or> isnan (lat_traj ds p t) \<Longrightarrow> \<not> in_box b ds t p"
  by (auto simp: in_box_def isnan_iff fle_nan_left fge_def fle_nan_right)

lemma in_box_Fin:
  "in_box \<lparr>lon_min = Fin x0, lon_max = Fin x1, lat_min = Fin y0, lat_max = Fin y1\<rparr> ds t p \<longleftrightarrow>
     (\<exists>x y. lon_traj ds p t = Fin x \<and> lat_traj ds p t = Fin y \<and>
            x0 \<le> x \<and> x \<le> x1 \<and> y0 \<le> y \<and> y \<le> y1)"
  by (cases "lon_traj ds p t"; cases "lat_traj ds p t")
     (auto simp: in_box_def fge_def fle_def feq_def)

section \<open>One turn of the loop\<close>

text \<open>
  The three outcomes of a turn: a TypeError when the day is NaT, never the
  \<^verbatim>\<open>break\<close> (the float of a count is not NaN), and otherwise the next state.
\<close>

lemma loop_body_NaT: "days_traj ds 0 t = NaT \<Longrightarrow> loop_body b ds t st = Inl TypeError"
  by (simp add: loop_body_def)

lemma loop_body_Ns:
  "days_traj ds 0 t = Ns d \<Longrightarrow>
   loop_body b ds t st =
     Inr (Some \<lparr>captured_ids =
                  (if 30 \<le> d
                   then captured_ids st \<union> {p. p < n_part ds \<and> in_box b ds t p}
                   else captured_ids st),
                curve = curve st @
                  [card (if 30 \<le> d
                         then captured_ids st \<union> {p. p < n_part ds \<and> in_box b ds t p}
                         else captured_ids st)],
                t_axis = t_axis st @ [Fin (of_int d)]\<rparr>)"
  by (auto simp: loop_body_def Let_def np_where_def fge_day)

lemma loop_body_never_breaks: "loop_body b ds t st \<noteq> Inr None"
  by (cases "days_traj ds 0 t") (simp_all add: loop_body_NaT loop_body_Ns)

lemma loop_body_Inl: "loop_body b ds t st = Inl e \<longleftrightarrow> days_traj ds 0 t = NaT \<and> e = TypeError"
  by (cases "days_traj ds 0 t") (auto simp: loop_body_NaT loop_body_Ns)

lemma loop_body_Some:
  assumes "loop_body b ds t st = Inr (Some st')"
  shows "\<exists>d. days_traj ds 0 t = Ns d \<and>
           captured_ids st' =
             (if 30 \<le> d
              then captured_ids st \<union> {p. p < n_part ds \<and> in_box b ds t p}
              else captured_ids st) \<and>
           curve st' = curve st @ [card (captured_ids st')] \<and>
           t_axis st' = t_axis st @ [Fin (of_int d)]"
proof (cases "days_traj ds 0 t")
  case NaT
  then show ?thesis using assms by (simp add: loop_body_NaT)
next
  case (Ns d)
  then show ?thesis using assms by (auto simp: loop_body_Ns)
qed

lemma loop_body_grows:
  "loop_body b ds t st = Inr (Some st') \<Longrightarrow> captured_ids st \<subseteq> captured_ids st'"
  using loop_body_Some [of b ds t st st'] by (auto split: if_splits)

lemma loop_body_curve:
  "loop_body b ds t st = Inr (Some st') \<Longrightarrow> curve st' = curve st @ [card (captured_ids st')]"
  using loop_body_Some [of b ds t st st'] by auto

lemma loop_body_finite:
  "loop_body b ds t st = Inr (Some st') \<Longrightarrow> finite (captured_ids st) \<Longrightarrow>
     finite (captured_ids st')"
  using loop_body_Some [of b ds t st st'] by (auto split: if_splits)

lemma loop_body_cong:
  assumes "n_part ds' = n_part ds" "time_vals ds' 0 0 = time_vals ds 0 0"
    and "time_vals ds' 0 t = time_vals ds 0 t"
    and "\<forall>p < n_part ds. lon_traj ds' p t = lon_traj ds p t \<and> lat_traj ds' p t = lat_traj ds p t"
  shows "loop_body b ds' t st = loop_body b ds t st"
proof -
  have day: "days_traj ds' 0 t = days_traj ds 0 t"
    using assms(2,3) by (simp add: days_traj_def)
  have inside: "{p. p < n_part ds' \<and> in_box b ds' t p} = {p. p < n_part ds \<and> in_box b ds t p}"
    using assms(1,4) by (auto simp: in_box_def)
  show ?thesis
  proof (cases "days_traj ds 0 t")
    case NaT
    then show ?thesis using day by (simp add: loop_body_NaT)
  next
    case (Ns d)
    then have "days_traj ds' 0 t = Ns d" using day by simp
    then show ?thesis using Ns inside by (simp add: loop_body_Ns)
  qed
qed

section \<open>The loop\<close>

text \<open>The turn at the head of the loop either ends it, leaving the state, or goes on.\<close>

lemma capture_loop_Cons:
  "(\<nexists>st'. loop_body b ds t st = Inr (Some st')) \<and> snd (capture_loop b ds (t # ts) st) = st \<or>
   (\<exists>st'. loop_body b ds t st = Inr (Some st') \<and>
          capture_loop b ds (t # ts) st = capture_loop b ds ts st')"
  by (cases "loop_body b ds t st") (auto split: option.splits)

lemma capture_loop_grows:
  "captured_ids st \<subseteq> captured_ids (snd (capture_loop b ds ts st))"
proof (induction ts arbitrary: st)
  case Nil
  show ?case by simp
next
  case (Cons t ts)
  from capture_loop_Cons [of b ds t st ts] show ?case
  proof (elim disjE conjE exE)
    assume "snd (capture_loop b ds (t # ts) st) = st"
    then show ?thesis by simp
  next
    fix st'
    assume body: "loop_body b ds t st = Inr (Some st')"
      and loop: "capture_loop b ds (t # ts) st = capture_loop b ds ts st'"
    have "captured_ids st \<subseteq> captured_ids st'"
      using body by (rule loop_body_grows)
    also have "\<dots> \<subseteq> captured_ids (snd (capture_loop b ds ts st'))"
      by (rule Cons.IH)
    finally show ?thesis using loop by simp
  qed
qed

lemma capture_loop_curve_extends:
  "\<exists>ys. curve (snd (capture_loop b ds ts st)) = curve st @ ys"
proof (induction ts arbitrary: st)
  case Nil
  show ?case by simp
next
  case (Cons t ts)
  from capture_loop_Cons [of b ds t st ts] show ?case
  proof (elim disjE conjE exE)
    assume "snd (capture_loop b ds (t # ts) st) = st"
    then show ?thesis by simp
  next
    fix st'
    assume body: "loop_body b ds t st = Inr (Some st')"
      and loop: "capture_loop b ds (t # ts) st = capture_loop b ds ts st'"
    obtain ys where "curve (snd (capture_loop b ds ts st')) = curve st' @ ys"
      using Cons.IH by blast
    then show ?thesis using loop loop_body_curve [OF body] by simp
  qed
qed

lemma capture_loop_append_grows:
  "captured_ids (snd (capture_loop b ds ts st))
     \<subseteq> captured_ids (snd (capture_loop b ds (ts @ us) st))"
proof (induction ts arbitrary: st)
  case Nil
  show ?case by (simp add: capture_loop_grows)
next
  case (Cons t ts)
  show ?case
    by (cases "loop_body b ds t st") (simp_all add: Cons.IH split: option.splits)
qed

lemma capture_loop_append_curve:
  "\<exists>ys. curve (snd (capture_loop b ds (ts @ us) st))
           = curve (snd (capture_loop b ds ts st)) @ ys"
proof (induction ts arbitrary: st)
  case Nil
  show ?case by (simp add: capture_loop_curve_extends)
next
  case (Cons t ts)
  show ?case
    by (cases "loop_body b ds t st") (simp_all add: Cons.IH split: option.splits)
qed

text \<open>
  The invariant of the loop: the set is finite, the counts recorded so far are in
  order, and none of them exceeds the present size of the set.
\<close>

lemma capture_loop_sorted:
  assumes "finite (captured_ids st)" "sorted (curve st)"
    and "\<forall>c \<in> set (curve st). c \<le> card (captured_ids st)"
  shows "finite (captured_ids (snd (capture_loop b ds ts st))) \<and>
         sorted (curve (snd (capture_loop b ds ts st))) \<and>
         (\<forall>c \<in> set (curve (snd (capture_loop b ds ts st))).
            c \<le> card (captured_ids (snd (capture_loop b ds ts st))))"
  using assms
proof (induction ts arbitrary: st)
  case Nil
  then show ?case by simp
next
  case (Cons t ts)
  from capture_loop_Cons [of b ds t st ts] show ?case
  proof (elim disjE conjE exE)
    assume "snd (capture_loop b ds (t # ts) st) = st"
    then show ?thesis using Cons.prems by simp
  next
    fix st'
    assume body: "loop_body b ds t st = Inr (Some st')"
      and loop: "capture_loop b ds (t # ts) st = capture_loop b ds ts st'"
    have fin: "finite (captured_ids st')"
      using body Cons.prems(1) by (rule loop_body_finite)
    have le: "card (captured_ids st) \<le> card (captured_ids st')"
      using fin loop_body_grows [OF body] by (rule card_mono)
    have cv: "curve st' = curve st @ [card (captured_ids st')]"
      using body by (rule loop_body_curve)
    have bound: "\<forall>c \<in> set (curve st'). c \<le> card (captured_ids st')"
      using Cons.prems(3) le cv by auto
    have srt: "sorted (curve st')"
      using Cons.prems(2,3) le cv by (auto simp: sorted_append)
    show ?thesis
      using Cons.IH [OF fin srt bound] loop by simp
  qed
qed

text \<open>An undefined day among the steps ends the loop with a TypeError.\<close>

lemma capture_loop_raises:
  "t \<in> set ts \<Longrightarrow> days_traj ds 0 t = NaT \<Longrightarrow>
     fst (capture_loop b ds ts st) = Some TypeError"
proof (induction ts arbitrary: st)
  case Nil
  then show ?case by simp
next
  case (Cons s ts)
  show ?case
  proof (cases "days_traj ds 0 s")
    case NaT
    then show ?thesis by (simp add: loop_body_NaT)
  next
    case (Ns d)
    then have "s \<noteq> t" using Cons.prems(2) by auto
    then have "t \<in> set ts" using Cons.prems(1) by simp
    then show ?thesis using Cons.IH Cons.prems(2) Ns by (simp add: loop_body_Ns)
  qed
qed

text \<open>With every day defined the loop runs through all its steps and raises nothing.\<close>

lemma capture_loop_defined:
  "\<forall>s \<in> set ts. days_traj ds 0 s \<noteq> NaT \<Longrightarrow>
     capture_loop b ds (ts @ us) st = capture_loop b ds us (snd (capture_loop b ds ts st)) \<and>
     fst (capture_loop b ds ts st) = None \<and>
     length (curve (snd (capture_loop b ds ts st))) = length (curve st) + length ts"
proof (induction ts arbitrary: st)
  case Nil
  show ?case by simp
next
  case (Cons s ts)
  obtain d where d: "days_traj ds 0 s = Ns d"
    using Cons.prems by (cases "days_traj ds 0 s") auto
  have rest: "\<forall>s \<in> set ts. days_traj ds 0 s \<noteq> NaT"
    using Cons.prems by simp
  show ?case
    using Cons.IH [OF rest] by (simp add: loop_body_Ns [OF d])
qed

lemma capture_loop_cong:
  assumes "n_part ds' = n_part ds" "time_vals ds' 0 0 = time_vals ds 0 0"
    and "\<forall>t \<in> set ts. time_vals ds' 0 t = time_vals ds 0 t \<and>
           (\<forall>p < n_part ds. lon_traj ds' p t = lon_traj ds p t \<and> lat_traj ds' p t = lat_traj ds p t)"
  shows "capture_loop b ds' ts st = capture_loop b ds ts st"
  using assms(3)
proof (induction ts arbitrary: st)
  case Nil
  show ?case by simp
next
  case (Cons t ts)
  have "loop_body b ds' t st = loop_body b ds t st"
    using assms(1,2) Cons.prems by (intro loop_body_cong) simp_all
  moreover have "capture_loop b ds' ts s = capture_loop b ds ts s" for s
    using Cons.prems by (intro Cons.IH) simp
  ultimately show ?case by (simp split: sum.splits option.splits)
qed

lemma capture_loop_captured:
  "captured_ids (snd (capture_loop b ds ts st)) \<subseteq>
     captured_ids st \<union>
     {p. p < n_part ds \<and>
         (\<exists>t \<in> set ts. \<exists>d. days_traj ds 0 t = Ns d \<and> 30 \<le> d \<and> in_box b ds t p)}"
proof (induction ts arbitrary: st)
  case Nil
  show ?case by simp
next
  case (Cons s ts)
  from capture_loop_Cons [of b ds s st ts] show ?case
  proof (elim disjE conjE exE)
    assume "snd (capture_loop b ds (s # ts) st) = st"
    then show ?thesis by auto
  next
    fix st'
    assume body: "loop_body b ds s st = Inr (Some st')"
      and loop: "capture_loop b ds (s # ts) st = capture_loop b ds ts st'"
    have "captured_ids st' \<subseteq> captured_ids st \<union>
        {p. p < n_part ds \<and> (\<exists>d. days_traj ds 0 s = Ns d \<and> 30 \<le> d \<and> in_box b ds s p)}"
      using loop_body_Some [OF body] by (auto split: if_splits)
    then show ?thesis using Cons.IH [of st'] loop by auto
  qed
qed

section \<open>The state after a number of steps\<close>

lemma upt_split: "i \<le> j \<Longrightarrow> [0..<j] = [0..<i] @ [i..<j]"
  using upt_add_eq_append [of 0 i "j - i"] by simp

lemma upt3: "[0..<3] = [0, 1, 2]"
  by (simp add: upt_rec)

lemma analyse_Inr:
  "analyse b ds = Inr st \<Longrightarrow> st = state_after b ds (n_steps ds)"
  by (auto simp: analyse_def state_after_def split: if_splits prod.splits option.splits)

lemma analyse_defined:
  assumes "0 < n_part ds" "0 < n_steps ds" "\<forall>s < n_steps ds. days_traj ds 0 s \<noteq> NaT"
  shows "analyse b ds = Inr (state_after b ds (n_steps ds))"
proof -
  have "\<forall>s \<in> set [0..<n_steps ds]. days_traj ds 0 s \<noteq> NaT"
    using assms(3) by simp
  then have "fst (capture_loop b ds [0..<n_steps ds] init_state) = None"
    using capture_loop_defined [of "[0..<n_steps ds]" ds b "[]" init_state] by blast
  then show ?thesis
    using assms(1,2)
    by (cases "capture_loop b ds [0..<n_steps ds] init_state")
       (simp add: analyse_def state_after_def)
qed

lemma analyse_raises:
  assumes "0 < n_part ds" "t < n_steps ds" "days_traj ds 0 t = NaT"
  shows "analyse b ds = Inl TypeError"
proof -
  have "t \<in> set [0..<n_steps ds]"
    using assms(2) by simp
  then have "fst (capture_loop b ds [0..<n_steps ds] init_state) = Some TypeError"
    using assms(3) by (rule capture_loop_raises)
  then show ?thesis
    using assms(1,2)
    by (cases "capture_loop b ds [0..<n_steps ds] init_state") (simp add: analyse_def)
qed

lemma days_traj_defined:
  "time_vals ds 0 0 \<noteq> NaT \<Longrightarrow> time_vals ds 0 t \<noteq> NaT \<Longrightarrow> days_traj ds 0 t \<noteq> NaT"
  by (cases "time_vals ds 0 0"; cases "time_vals ds 0 t") (simp_all add: days_traj_def)

lemma state_after_Suc:
  "state_after b ds (Suc t) = state_after b ds t \<or>
   loop_body b ds t (state_after b ds t) = Inr (Some (state_after b ds (Suc t)))"
proof -
  have "snd (capture_loop b ds (ts @ [t]) st) = snd (capture_loop b ds ts st) \<or>
        loop_body b ds t (snd (capture_loop b ds ts st))
          = Inr (Some (snd (capture_loop b ds (ts @ [t]) st)))"
    for ts st
  proof (induction ts arbitrary: st)
    case Nil
    show ?case by (cases "loop_body b ds t st") (auto split: option.splits)
  next
    case (Cons s ts)
    show ?case using Cons.IH by (cases "loop_body b ds s st") (auto split: option.splits)
  qed
  then show ?thesis by (simp add: state_after_def)
qed

lemma state_after_Suc_reached:
  assumes "\<forall>s \<le> t. days_traj ds 0 s \<noteq> NaT"
  shows "loop_body b ds t (state_after b ds t) = Inr (Some (state_after b ds (Suc t)))"
proof -
  have "\<forall>s \<in> set [0..<t]. days_traj ds 0 s \<noteq> NaT"
    using assms by simp
  then have split: "capture_loop b ds ([0..<t] @ [t]) init_state
      = capture_loop b ds [t] (snd (capture_loop b ds [0..<t] init_state))"
    using capture_loop_defined by blast
  obtain d where "days_traj ds 0 t = Ns d"
    using assms by (cases "days_traj ds 0 t") auto
  then show ?thesis
    using split by (simp add: state_after_def loop_body_Ns)
qed

text \<open>The equations that evaluate the analysis of a recorded example.\<close>

lemmas eval_simps =
  loop_body_def days_traj_def init_state_def Let_def fge_def fle_def feq_def in_box_def
  np_where_def state_after_def analyse_def trunc_def upt_rec

section \<open>Properties of the capture analysis\<close>

text \<open>
  C1. Through the steps of the capture loop, in increasing order, the set of captured
  particles only grows and the recorded counts never decrease: the set after \<open>i\<close> steps
  is contained in the set after any later number \<open>j\<close> of steps, the curve after \<open>j\<close> steps
  extends the curve after \<open>i\<close> steps, and it is in non-decreasing order.
\<close>

theorem capture_monotone:
  "i \<le> j \<Longrightarrow>
     captured_ids (state_after b ds i) \<subseteq> captured_ids (state_after b ds j) \<and>
     (\<exists>ys. curve (state_after b ds j) = curve (state_after b ds i) @ ys) \<and>
     sorted (curve (state_after b ds j))"
proof -
  assume ij: "i \<le> j"
  have split: "[0..<j] = [0..<i] @ [i..<j]"
    using ij by (rule upt_split)
  have "sorted (curve (snd (capture_loop b ds [0..<j] init_state)))"
    using capture_loop_sorted [of init_state b ds "[0..<j]"] by (simp add: init_state_def)
  moreover have "captured_ids (snd (capture_loop b ds [0..<i] init_state))
      \<subseteq> captured_ids (snd (capture_loop b ds ([0..<i] @ [i..<j]) init_state))"
    by (rule capture_loop_append_grows)
  moreover have "\<exists>ys. curve (snd (capture_loop b ds ([0..<i] @ [i..<j]) init_state))
      = curve (snd (capture_loop b ds [0..<i] init_state)) @ ys"
    by (rule capture_loop_append_curve)
  ultimately show ?thesis
    by (simp add: state_after_def flip: split)
qed

theorem capture_monotone_witness:
  "(1::nat) \<le> 3 \<and>
   captured_ids (state_after box_scenario ds_scenario 1) = {} \<and>
   captured_ids (state_after box_scenario ds_scenario 3) = {0} \<and>
   captured_ids (state_after box_scenario ds_scenario 1)
     \<subseteq> captured_ids (state_after box_scenario ds_scenario 3) \<and>
   curve (state_after box_scenario ds_scenario 3) = [0, 1, 1] \<and>
   sorted (curve (state_after box_scenario ds_scenario 3))"
  using capture_monotone [of 1 3 box_scenario ds_scenario]
  by (simp add: eval_simps ds_scenario_def box_scenario_def)

text \<open>
  C2. The analysis of the single particle recorded at (day 0, (5, 5)), (day 30, (0.5, 0.5)),
  (day 60, (0.5, 0.5)), with the box [0, 1] x [0, 1] and the threshold of 30 days, gives
  the cumulative curve [(0, 0), (30, 1), (60, 1)] and the set of captured particles {0}.
\<close>

theorem scenario_single_particle:
  "analyse box_scenario ds_scenario =
     Inr \<lparr>captured_ids = {0}, curve = [0, 1, 1], t_axis = [Fin 0, Fin 30, Fin 60]\<rparr> \<and>
   cumulative_curve \<lparr>captured_ids = {0}, curve = [0, 1, 1], t_axis = [Fin 0, Fin 30, Fin 60]\<rparr>
     = [(Fin 0, 0), (Fin 30, 1), (Fin 60, 1)]"
  by (simp add: analyse_def ds_scenario_def box_scenario_def upt3 loop_body_def days_traj_def
      init_state_def Let_def fge_def fle_def feq_def in_box_def np_where_def trunc_def
      cumulative_curve_def)

text \<open>
  C6. The claim is that an undefined day ends the loop cleanly, with the curve recorded
  up to that step. The script does not do so: on the archive \<open>ds_nat_day\<close> the day of the
  third step is NaT, \<^verbatim>\<open>float(days_traj[0, t])\<close> raises a TypeError before
  \<^verbatim>\<open>np.isnan(day)\<close> is reached, and the analysis ends with that exception, although
  the day of the fourth step is defined.
\<close>

theorem undefined_day_raises:
  "days_traj ds_nat_day 0 2 = NaT \<and>
   days_traj ds_nat_day 0 3 = Ns 90 \<and>
   loop_body box_scenario ds_nat_day 2 (state_after box_scenario ds_nat_day 2) = Inl TypeError \<and>
   analyse box_scenario ds_nat_day = Inl TypeError"
  by (simp add: eval_simps ds_nat_day_def box_scenario_def)

text \<open>
  C7. Membership is tested with inclusive comparisons. At a step \<open>t\<close> that the loop
  runs (every day up to \<open>t\<close> is defined): when the day is at least 30, equality included,
  every particle whose position has \<open>lon_min \<le> lon \<le> lon_max\<close> and
  \<open>lat_min \<le> lat \<le> lat_max\<close>, the four edges included, joins the set of captured particles
  at that step; when the day is below 30 the set is left as it was.
\<close>

theorem inclusive_capture:
  assumes "t < n_steps ds" "\<forall>s \<le> t. days_traj ds 0 s \<noteq> NaT"
  shows "(\<exists>d. days_traj ds 0 t = Ns d \<and>
            (30 \<le> d \<longrightarrow>
               captured_ids (state_after b ds (Suc t)) =
                 captured_ids (state_after b ds t) \<union> {p. p < n_part ds \<and> in_box b ds t p}) \<and>
            (d < 30 \<longrightarrow>
               captured_ids (state_after b ds (Suc t)) = captured_ids (state_after b ds t))) \<and>
         (\<forall>x0 x1 y0 y1 p.
            b = \<lparr>lon_min = Fin x0, lon_max = Fin x1, lat_min = Fin y0, lat_max = Fin y1\<rparr> \<longrightarrow>
              (in_box b ds t p \<longleftrightarrow>
                 (\<exists>x y. lon_traj ds p t = Fin x \<and> lat_traj ds p t = Fin y \<and>
                        x0 \<le> x \<and> x \<le> x1 \<and> y0 \<le> y \<and> y \<le> y1)))"
proof -
  have step: "loop_body b ds t (state_after b ds t) = Inr (Some (state_after b ds (Suc t)))"
    using assms(2) by (rule state_after_Suc_reached)
  obtain d where d: "days_traj ds 0 t = Ns d"
    and cap: "captured_ids (state_after b ds (Suc t)) =
          (if 30 \<le> d
           then captured_ids (state_after b ds t) \<union> {p. p < n_part ds \<and> in_box b ds t p}
           else captured_ids (state_after b ds t))"
    using loop_body_Some [OF step] by blast
  have "(30 \<le> d \<longrightarrow>
           captured_ids (state_after b ds (Suc t)) =
             captured_ids (state_after b ds t) \<union> {p. p < n_part ds \<and> in_box b ds t p}) \<and>
        (d < 30 \<longrightarrow>
           captured_ids (state_after b ds (Suc t)) = captured_ids (state_after b ds t))"
    using cap by simp
  then show ?thesis
    using d by (simp add: in_box_Fin)
qed

theorem inclusive_capture_witness:
  "(1::nat) < n_steps ds_edge \<and>
   days_traj ds_edge 0 0 = Ns 0 \<and>
   days_traj ds_edge 0 1 = Ns 30 \<and>
   lon_traj ds_edge 0 1 = lon_min AMP_BOX \<and>
   lat_traj ds_edge 0 1 = lat_max AMP_BOX \<and>
   0 \<in> captured_ids (state_after AMP_BOX ds_edge 2) \<and>
   1 \<notin> captured_ids (state_after AMP_BOX ds_edge 2) \<and>
   captured_ids (state_after AMP_BOX ds_edge 1) = {}"
proof -
  have reach: "\<forall>s \<le> 1. days_traj ds_edge 0 s \<noteq> NaT"
    by (simp add: le_Suc_eq ds_edge_def days_traj_def trunc_def)
  have lt: "1 < n_steps ds_edge"
    by (simp add: ds_edge_def)
  show ?thesis
    using inclusive_capture [OF lt reach, of AMP_BOX]
    by (simp add: eval_simps ds_edge_def AMP_BOX_def)
qed

text \<open>
  C8. A particle whose longitude or latitude is NaN at a step is not inside the box at
  that step, and that step does not change whether it is captured. A particle that is
  not inside the box at any step whose day is at least 30 is not in the final set. On an
  archive with at least one particle and one step where the times of particle 0 are all
  defined, the analysis returns its result, not an error, whatever positions are
  undefined.
\<close>

theorem undefined_never_captured:
  "(isnan (lon_traj ds p t) \<or> isnan (lat_traj ds p t) \<longrightarrow>
      \<not> in_box b ds t p \<and>
      (p \<in> captured_ids (state_after b ds (Suc t)) \<longleftrightarrow> p \<in> captured_ids (state_after b ds t))) \<and>
   ((\<forall>s < n_steps ds. \<forall>d. days_traj ds 0 s = Ns d \<and> 30 \<le> d \<longrightarrow> \<not> in_box b ds s p) \<longrightarrow>
      p \<notin> captured_ids (state_after b ds (n_steps ds)) \<and>
      (\<forall>st. analyse b ds = Inr st \<longrightarrow> p \<notin> captured_ids st)) \<and>
   (0 < n_part ds \<and> 0 < n_steps ds \<and> (\<forall>s < n_steps ds. time_vals ds 0 s \<noteq> NaT) \<longrightarrow>
      analyse b ds = Inr (state_after b ds (n_steps ds)))"
proof -
  have one: "\<not> in_box b ds t p \<and>
      (p \<in> captured_ids (state_after b ds (Suc t)) \<longleftrightarrow> p \<in> captured_ids (state_after b ds t))"
    if nan: "isnan (lon_traj ds p t) \<or> isnan (lat_traj ds p t)"
  proof -
    have out: "\<not> in_box b ds t p"
      using nan by (rule in_box_nan)
    from state_after_Suc [of b ds t]
    have "p \<in> captured_ids (state_after b ds (Suc t)) \<longleftrightarrow> p \<in> captured_ids (state_after b ds t)"
    proof
      assume "state_after b ds (Suc t) = state_after b ds t"
      then show ?thesis by simp
    next
      assume "loop_body b ds t (state_after b ds t) = Inr (Some (state_after b ds (Suc t)))"
      then show ?thesis
        using out loop_body_Some [of b ds t "state_after b ds t" "state_after b ds (Suc t)"]
        by (auto split: if_splits)
    qed
    then show ?thesis using out by simp
  qed
  have two: "p \<notin> captured_ids (state_after b ds (n_steps ds)) \<and>
      (\<forall>st. analyse b ds = Inr st \<longrightarrow> p \<notin> captured_ids st)"
    if never: "\<forall>s < n_steps ds. \<forall>d. days_traj ds 0 s = Ns d \<and> 30 \<le> d \<longrightarrow> \<not> in_box b ds s p"
  proof -
    have "p \<notin> captured_ids (state_after b ds (n_steps ds))"
      using never capture_loop_captured [of b ds "[0..<n_steps ds]" init_state]
      by (auto simp: state_after_def init_state_def)
    then show ?thesis using analyse_Inr [of b ds] by blast
  qed
  have three: "analyse b ds = Inr (state_after b ds (n_steps ds))"
    if "0 < n_part ds" "0 < n_steps ds" "\<forall>s < n_steps ds. time_vals ds 0 s \<noteq> NaT"
  proof -
    have "time_vals ds 0 0 \<noteq> NaT"
      using that(2,3) by simp
    then have "\<forall>s < n_steps ds. days_traj ds 0 s \<noteq> NaT"
      using that(3) by (simp add: days_traj_defined)
    then show ?thesis using that(1,2) by (intro analyse_defined)
  qed
  show ?thesis using one two three by blast
qed

theorem undefined_never_captured_witness:
  "isnan (lon_traj ds_lost 1 2) \<and>
   \<not> in_box box_scenario ds_lost 2 1 \<and>
   1 \<notin> captured_ids (state_after box_scenario ds_lost 3) \<and>
   1 \<notin> captured_ids (state_after box_scenario ds_lost (n_steps ds_lost)) \<and>
   0 \<in> captured_ids (state_after box_scenario ds_lost (n_steps ds_lost)) \<and>
   analyse box_scenario ds_lost = Inr (state_after box_scenario ds_lost (n_steps ds_lost))"
proof -
  have nan: "isnan (lon_traj ds_lost 1 2)"
    by (simp add: ds_lost_def)
  have never: "\<forall>s < n_steps ds_lost. \<forall>d.
      days_traj ds_lost 0 s = Ns d \<and> 30 \<le> d \<longrightarrow> \<not> in_box box_scenario ds_lost s 1"
    by (simp add: less_Suc_eq numeral_eq_Suc eval_simps ds_lost_def box_scenario_def)
  have nonempty: "0 < n_part ds_lost \<and> 0 < n_steps ds_lost"
    by (simp add: ds_lost_def)
  have times: "\<forall>s < n_steps ds_lost. time_vals ds_lost 0 s \<noteq> NaT"
    by (simp add: less_Suc_eq numeral_eq_Suc ds_lost_def)
  have zero: "0 \<in> captured_ids (state_after box_scenario ds_lost (n_steps ds_lost))"
    by (simp add: eval_simps ds_lost_def box_scenario_def)
  have prior: "1 \<notin> captured_ids (state_after box_scenario ds_lost 2)"
    by (simp add: eval_simps ds_lost_def box_scenario_def)
  show ?thesis
    using undefined_never_captured [of ds_lost 1 2 box_scenario]
      nan never nonempty times zero prior
    by simp
qed

text \<open>
  C10. The claim is that an undefined time of particle 0 stops the loop, for every
  particle, as the \<^verbatim>\<open>break\<close> would. The days do come from the times of particle 0
  alone, but the script does not stop cleanly: on the archive \<open>ds_nan_time\<close> the time of
  particle 0 is NaT at the third step, where particle 1 has a defined time and is inside
  the box; the analysis raises a TypeError there and returns no curve and no set.
\<close>

theorem first_particle_time_raises:
  "time_vals ds_nan_time 0 2 = NaT \<and>
   time_vals ds_nan_time 1 2 = Ns 5184000000000000 \<and>
   days_traj ds_nan_time 1 2 = Ns 60 \<and>
   in_box box_scenario ds_nan_time 2 1 \<and>
   days_traj ds_nan_time 0 2 = NaT \<and>
   analyse box_scenario ds_nan_time = Inl TypeError"
  by (simp add: eval_simps ds_nan_time_def box_scenario_def)

section \<open>Properties of the seeding\<close>

text \<open>
  C3. With \<open>P\<close> coastal candidates and \<open>N\<close> particles requested, whatever permutation of
  \<open>0, \<dots>, P - 1\<close> the generator draws, the seed indices are returned without an error,
  there are \<open>min N P\<close> of them, all distinct and all below \<open>P\<close>; when \<open>P\<close> does not exceed
  \<open>N\<close> they are the candidates \<open>0, \<dots>, P - 1\<close>, each once.
\<close>

theorem indices_min:
  assumes "distinct perm" "set perm = {0..<P}"
  shows "\<exists>xs. indices perm P N = Inr xs \<and> length xs = min N P \<and> distinct xs \<and>
           set xs \<subseteq> {0..<P} \<and> (P \<le> N \<longrightarrow> xs = [0..<P])"
proof -
  have len: "length perm = P"
    using assms distinct_card [of perm] by simp
  show ?thesis
  proof (cases "P > N")
    case True
    then have "indices perm P N = Inr (take N perm)"
      by (simp add: indices_def random_choice_def)
    moreover have "length (take N perm) = min N P"
      using len by (simp add: min.commute)
    moreover have "distinct (take N perm)"
      using assms(1) by simp
    moreover have "set (take N perm) \<subseteq> {0..<P}"
      using assms(2) set_take_subset [of N perm] by simp
    ultimately show ?thesis using True by simp
  next
    case False
    then show ?thesis by (simp add: indices_def arange_def)
  qed
qed

theorem indices_min_witness:
  "distinct [2, 0, 1 :: nat] \<and> set [2, 0, 1 :: nat] = {0..<3} \<and>
   (\<exists>xs. indices [2, 0, 1] 3 2 = Inr xs \<and> length xs = 2 \<and> distinct xs \<and> set xs \<subseteq> {0..<3})"
proof -
  have d: "distinct [2, 0, 1 :: nat]" by simp
  have s: "set [2, 0, 1 :: nat] = {0..<3}" by auto
  show ?thesis using d s indices_min [OF d s, of 2] by simp
qed

text \<open>
  C4. No cell of the grid is both land and coastal band: the coastal band is the dilated
  land mask without the land mask.
\<close>

theorem coastal_disjoint_land:
  "\<not> (cell (mask_land uo_sample) y x \<and> cell (mask_coastal uo_sample) y x)"
  by (simp add: mask_coastal_def)

text \<open>
  C9. A cell is land exactly when its velocity is NaN, or is greater than 1e10 (the
  positive infinity included), or is zero; any other cell is sea.
\<close>

theorem mask_land_iff:
  "cell (mask_land uo_sample) y x \<longleftrightarrow>
     (cell uo_sample y x = NaN \<or> cell uo_sample y x = PInf \<or>
      (\<exists>v. cell uo_sample y x = Fin v \<and> (v > 10000000000 \<or> v = 0)))"
  by (cases "cell uo_sample y x") (auto simp: mask_land_def fgt_def feq_def)

section \<open>Properties of the boundary kernel\<close>

text \<open>
  C5. The kernel \<open>GibraltarWall\<close> is idempotent: applied twice, it leaves the particle,
  and so its longitude, as one application does.
\<close>

theorem GibraltarWall_idempotent:
  "GibraltarWall (GibraltarWall particle fieldset time) fieldset time
     = GibraltarWall particle fieldset time"
  by (simp add: GibraltarWall_def)

end
